theory Spec2Isabelle
  imports Main
begin

section \<open>The stored row\<close>

text \<open>
  The adapter stores every policy rule as one row of the table \<open>x_policy\<close>: a type
  column and six value columns, all strings. The Go struct \<open>CasbinRule\<close> is the row;
  its \<open>TableName\<close> field only carries the table's name in its tag and holds no data.
  Go strings are byte sequences, as \<open>string\<close> is here.
\<close>

record CasbinRule =
  PType :: string
  V0 :: string
  V1 :: string
  V2 :: string
  V3 :: string
  V4 :: string
  V5 :: string

text \<open>\<open>CasbinRule{}\<close>, the zero value: every column is the empty string.\<close>

definition CasbinRule_zero :: CasbinRule where
  "CasbinRule_zero = \<lparr>PType = [], V0 = [], V1 = [], V2 = [], V3 = [], V4 = [], V5 = []\<rparr>"

text \<open>The six value columns of a row, in column order.\<close>

definition columns :: "CasbinRule \<Rightarrow> string list" where
  "columns line = [V0 line, V1 line, V2 line, V3 line, V4 line, V5 line]"

section \<open>The rule codec\<close>

text \<open>
  \<open>savePolicyLine\<close> encodes a policy type and a rule into a row: six guarded
  assignments, one per value column, each reading \<open>rule[i]\<close> only under
  \<open>len(rule) > i\<close>.
\<close>

definition savePolicyLine :: "string \<Rightarrow> string list \<Rightarrow> CasbinRule" where
  "savePolicyLine ptype rule =
    (let line = CasbinRule_zero;
         line = line\<lparr>PType := ptype\<rparr>;
         line = (if length rule > 0 then line\<lparr>V0 := rule ! 0\<rparr> else line);
         line = (if length rule > 1 then line\<lparr>V1 := rule ! 1\<rparr> else line);
         line = (if length rule > 2 then line\<lparr>V2 := rule ! 2\<rparr> else line);
         line = (if length rule > 3 then line\<lparr>V3 := rule ! 3\<rparr> else line);
         line = (if length rule > 4 then line\<lparr>V4 := rule ! 4\<rparr> else line);
         line = (if length rule > 5 then line\<lparr>V5 := rule ! 5\<rparr> else line)
     in line)"

text \<open>
  \<open>loadPolicyLine\<close> decodes a row in two steps: it builds the text \<open>lineText\<close>, then
  hands it to the policy engine's line-loader. The first step is
  \<open>loadPolicyLine_text\<close>: the type column, then every value column that is not the
  empty string, each after the separator \<open>", "\<close> (a comma and a space).
\<close>

definition loadPolicyLine_text :: "CasbinRule \<Rightarrow> string" where
  "loadPolicyLine_text line =
    (let lineText = PType line;
         lineText = (if V0 line \<noteq> [] then lineText @ '', '' @ V0 line else lineText);
         lineText = (if V1 line \<noteq> [] then lineText @ '', '' @ V1 line else lineText);
         lineText = (if V2 line \<noteq> [] then lineText @ '', '' @ V2 line else lineText);
         lineText = (if V3 line \<noteq> [] then lineText @ '', '' @ V3 line else lineText);
         lineText = (if V4 line \<noteq> [] then lineText @ '', '' @ V4 line else lineText);
         lineText = (if V5 line \<noteq> [] then lineText @ '', '' @ V5 line else lineText)
     in lineText)"

section \<open>Go integers, errors and panics\<close>

text \<open>
  Go's \<open>int\<close> is a signed machine integer, 64 bits wide on the platforms the adapter
  runs on; \<open>+\<close> and \<open>-\<close> wrap around. A value is an \<open>int\<close> here and \<open>wrap64\<close> is
  the wrap-around, written out.
\<close>

definition wrap64 :: "int \<Rightarrow> int" where
  "wrap64 x = (x + 2 ^ 63) mod 2 ^ 64 - 2 ^ 63"

text \<open>
  An \<open>error\<close> the database client returns, and the run-time panics of the Go code.
  \<open>Panic_error\<close> is \<open>panic(err)\<close>, as \<open>createTable\<close> and \<open>dropTable\<close> raise it.
\<close>

datatype db_error =
  UndefinedTable string | Rejected CasbinRule | ConnectionClosed | NoPrimaryKey

datatype panic =
  NilPointerDereference | IndexOutOfRange | SliceBoundsOutOfRange | Panic_error db_error

text \<open>How a call ends: \<open>Ok\<close> is the \<open>nil\<close> error, \<open>Err\<close> a returned error.\<close>

datatype outcome = Ok | Err db_error | Panic panic

text \<open>\<open>xs[k]\<close> on a slice: a panic unless \<open>0 \<le> k < len(xs)\<close>.\<close>

definition go_index :: "string list \<Rightarrow> int \<Rightarrow> panic + string" where
  "go_index xs k =
     (if 0 \<le> k \<and> k < int (length xs) then Inr (xs ! nat k) else Inl IndexOutOfRange)"

definition then_do :: "panic + 'a \<Rightarrow> ('a \<Rightarrow> panic + 'b) \<Rightarrow> panic + 'b" where
  "then_do x f = (case x of Inl p \<Rightarrow> Inl p | Inr v \<Rightarrow> f v)"

section \<open>The policy model and its line-loader\<close>

text \<open>
  The policy model belongs to the policy engine: \<open>model.Model\<close> maps a section name to
  a map from policy type to an assertion, of which the adapter reads and writes the
  \<open>Policy\<close> field only, a list of rules. A section's map is an association list with
  distinct keys, in the order in which one \<open>range\<close> loop visits the entries; Go leaves
  that order open, so a property that holds for every list holds for every order. A
  section the model does not have is the \<open>nil\<close> map, the empty list here.
\<close>

type_synonym Policy = "string list list"
type_synonym AssertionMap = "(string \<times> Policy) list"
type_synonym Model = "string \<Rightarrow> AssertionMap"

text \<open>Assignment through the pointer \<open>model[sec][key]\<close>: the entry keeps its place.\<close>

definition set_Policy :: "string \<Rightarrow> Policy \<Rightarrow> AssertionMap \<Rightarrow> AssertionMap" where
  "set_Policy key policy am = map (\<lambda>(k, p). if k = key then (k, policy) else (k, p)) am"

text \<open>
  \<open>strings.Split(line, ",")\<close>: the pieces of \<open>line\<close> between its commas; a line
  without a comma is one piece.
\<close>

fun split_comma :: "string \<Rightarrow> string list" where
  "split_comma [] = [[]]"
| "split_comma (c # cs) =
     (if c = CHR '','' then [] # split_comma cs
      else (case split_comma cs of [] \<Rightarrow> [[c]] | t # ts \<Rightarrow> (c # t) # ts))"

text \<open>
  \<open>strings.TrimSpace\<close> takes the white space off both ends of a string. White
  space is what \<open>unicode.IsSpace\<close> says: the characters with Unicode's White_Space
  property, here by their UTF-8 bytes (tab, line feed, vertical tab, form feed,
  carriage return, space, U+0085, U+00A0, U+1680, U+2000 to U+200A, U+2028, U+2029,
  U+202F, U+205F, U+3000). \<open>strip_space\<close> takes one such character off the front,
  \<open>trim_left\<close> all of them; the right end is the left end of the reversed string,
  with the bytes of each character reversed.
\<close>

definition white_space :: "string list" where
  "white_space =
     [[CHR 0x09], [CHR 0x0A], [CHR 0x0B], [CHR 0x0C], [CHR 0x0D], [CHR 0x20],
      [CHR 0xC2, CHR 0x85], [CHR 0xC2, CHR 0xA0], [CHR 0xE1, CHR 0x9A, CHR 0x80],
      [CHR 0xE2, CHR 0x80, CHR 0x80], [CHR 0xE2, CHR 0x80, CHR 0x81],
      [CHR 0xE2, CHR 0x80, CHR 0x82], [CHR 0xE2, CHR 0x80, CHR 0x83],
      [CHR 0xE2, CHR 0x80, CHR 0x84], [CHR 0xE2, CHR 0x80, CHR 0x85],
      [CHR 0xE2, CHR 0x80, CHR 0x86], [CHR 0xE2, CHR 0x80, CHR 0x87],
      [CHR 0xE2, CHR 0x80, CHR 0x88], [CHR 0xE2, CHR 0x80, CHR 0x89],
      [CHR 0xE2, CHR 0x80, CHR 0x8A], [CHR 0xE2, CHR 0x80, CHR 0xA8],
      [CHR 0xE2, CHR 0x80, CHR 0xA9], [CHR 0xE2, CHR 0x80, CHR 0xAF],
      [CHR 0xE2, CHR 0x81, CHR 0x9F], [CHR 0xE3, CHR 0x80, CHR 0x80]]"

definition strip_space :: "string list \<Rightarrow> string \<Rightarrow> string option" where
  "strip_space spaces s =
     (case filter (\<lambda>w. w \<noteq> [] \<and> take (length w) s = w) spaces of
        [] \<Rightarrow> None
      | w # ws \<Rightarrow> Some (drop (length w) s))"

function trim_left :: "string list \<Rightarrow> string \<Rightarrow> string" where
  "trim_left spaces s =
     (case strip_space spaces s of None \<Rightarrow> s | Some r \<Rightarrow> trim_left spaces r)"
  by pat_completeness auto
termination
proof (relation "measure (\<lambda>(spaces, s). length s)")
  show "wf (measure (\<lambda>(spaces, s). length s))"
    by simp
next
  fix spaces :: "string list" and s r :: string
  assume "strip_space spaces s = Some r"
  then obtain w ws where f: "filter (\<lambda>w. w \<noteq> [] \<and> take (length w) s = w) spaces = w # ws"
    and r: "r = drop (length w) s"
    by (auto simp: strip_space_def split: list.splits)
  from f have "w \<in> set (filter (\<lambda>w. w \<noteq> [] \<and> take (length w) s = w) spaces)"
    by simp
  then have "w \<noteq> []" and "take (length w) s = w"
    by simp_all
  then have "s \<noteq> []" and "0 < length w"
    by auto
  with r show "((spaces, r), (spaces, s)) \<in> measure (\<lambda>(spaces, s). length s)"
    by simp
qed

declare trim_left.simps [simp del]

definition TrimSpace :: "string \<Rightarrow> string" where
  "TrimSpace s = rev (trim_left (map rev white_space) (rev (trim_left white_space s)))"

text \<open>
  Modelled from the spec: the policy engine's line-loader \<open>persist.LoadPolicyLine\<close>,
  a function of the library \<open>github.com/casbin/casbin\<close> that \<open>loadPolicyLine\<close> calls
  and that is not among the sources. The spec (4.1, 6): the line-loader "re-splits on
  comma and reconstructs the rule inside the external model"; it is "a line-loading
  entry point that parses a comma-joined rule line back into the model", and the
  decoded lines are appended to the model. The line is split at its commas; the
  first piece is the policy type, the other pieces are the rule, appended to the
  \<open>Policy\<close> of the assertion of that type. What the spec leaves open follows the
  library: the white space around every piece is trimmed, an empty line and a line
  that starts with \<open>#\<close> load nothing, the section of a type is its first character
  (\<open>"p2"\<close> lives in section \<open>"p"\<close>), and a type the model does not declare is a
  \<open>nil\<close> assertion, whose update panics.
\<close>

definition persist_LoadPolicyLine :: "string \<Rightarrow> Model \<Rightarrow> panic + Model" where
  "persist_LoadPolicyLine line model =
     (if line = [] then Inr model
      else if take 1 line = ''#'' then Inr model
      else (case map TrimSpace (split_comma line) of
              [] \<Rightarrow> Inl IndexOutOfRange
            | key # rule \<Rightarrow>
                if key = [] then Inl SliceBoundsOutOfRange
                else (let sec = take 1 key in
                      case map_of (model sec) key of
                        None \<Rightarrow> Inl NilPointerDereference
                      | Some policy \<Rightarrow>
                          Inr (model(sec := set_Policy key (policy @ [rule]) (model sec))))))"

definition loadPolicyLine :: "CasbinRule \<Rightarrow> Model \<Rightarrow> panic + Model" where
  "loadPolicyLine line model = persist_LoadPolicyLine (loadPolicyLine_text line) model"

text \<open>
  The loop of \<open>LoadPolicy\<close> over the rows of the query. The model is updated in place,
  so a panic leaves it as the rows before had made it.
\<close>

fun loadLines :: "CasbinRule list \<Rightarrow> Model \<Rightarrow> outcome \<times> Model" where
  "loadLines [] model = (Ok, model)"
| "loadLines (line # lines) model =
     (case loadPolicyLine line model of
        Inl p \<Rightarrow> (Panic p, model)
      | Inr model' \<Rightarrow> loadLines lines model')"

section \<open>The database\<close>

text \<open>
  The statements the adapter sends as SQL text, by what they do and to which table:
  \<open>CREATE table IF NOT EXISTS x_policy (p_type VARCHAR(10), v0 VARCHAR(256), ...)\<close>,
  \<open>DROP table x_policy\<close> and \<open>select * from policy\<close>.
\<close>

datatype stmt = CreateTableIfNotExists string | DropTable string | SelectAll string

fun stmt_table :: "stmt \<Rightarrow> string" where
  "stmt_table (CreateTableIfNotExists t) = t"
| "stmt_table (DropTable t) = t"
| "stmt_table (SelectAll t) = t"

definition createTable_sql :: stmt where
  "createTable_sql = CreateTableIfNotExists ''x_policy''"

definition dropTable_sql :: stmt where
  "dropTable_sql = DropTable ''x_policy''"

definition LoadPolicy_sqlstr :: stmt where
  "LoadPolicy_sqlstr = SelectAll ''policy''"

text \<open>The table of a \<open>CasbinRule\<close>, from the tag of its \<open>TableName\<close> field.\<close>

definition CasbinRule_TableName :: string where
  "CasbinRule_TableName = ''x_policy''"

text \<open>
  The calls the adapter makes on the database client, in order. The server side
  keeps the tables (a table is the list of its rows), the rows it takes on insert,
  and the calls made.
\<close>

datatype db_call =
  Connect | Close | Exec stmt | Query stmt | Insert CasbinRule | Delete CasbinRule

record Server =
  tables :: "string \<rightharpoonup> CasbinRule list"
  accepts :: "CasbinRule \<Rightarrow> bool"
  trace :: "db_call list"

text \<open>
  The adapter's field \<open>db\<close>, a \<open>*pg.DB\<close>: \<open>nil\<close> until \<open>open\<close> has run (\<open>Unopened\<close>),
  then a connection that is \<open>Open\<close> until \<open>Close\<close> is called on it.
\<close>

datatype conn_state = Unopened | Open | Closed

text \<open>
  The database client is the library \<open>github.com/go-pg/pg\<close>, which is not among the
  sources; the adapter calls \<open>pg.Connect\<close>, \<open>Exec\<close>, \<open>Query\<close>, \<open>Insert\<close>, \<open>Delete\<close> and
  \<open>Close\<close> of it. The spec (6): "The adapter depends on a database client supporting:
  connect, raw DDL execution, querying into a row collection, row insert, and row
  delete-by-field-match"; errors of query, insert and delete are "propagated
  verbatim to the caller" (7). Connect, \<open>Exec\<close>, \<open>Query\<close> and \<open>Insert\<close> are modelled from
  these words; \<open>Delete\<close> is what the source says of it at the call. A call on the
  \<open>nil\<close> connection panics, on a closed one it returns an error; otherwise the call
  is made and noted.
\<close>

definition log_call :: "db_call \<Rightarrow> Server \<Rightarrow> Server" where
  "log_call c d = d\<lparr>trace := trace d @ [c]\<rparr>"

text \<open>
  Modelled from the spec: what a statement does on the server ("raw DDL execution",
  "create table if absent", "unconditionally drops the table"). A statement on a
  table that does not exist is an error, but for \<open>CREATE table IF NOT EXISTS\<close>, which
  creates the empty table or leaves an existing one as it is.
\<close>

definition run_stmt :: "stmt \<Rightarrow> Server \<Rightarrow> outcome \<times> Server" where
  "run_stmt q d =
     (case q of
        CreateTableIfNotExists t \<Rightarrow>
          (case tables d t of
             None \<Rightarrow> (Ok, d\<lparr>tables := (tables d)(t \<mapsto> [])\<rparr>)
           | Some rows \<Rightarrow> (Ok, d))
      | DropTable t \<Rightarrow>
          (case tables d t of
             None \<Rightarrow> (Err (UndefinedTable t), d)
           | Some rows \<Rightarrow> (Ok, d\<lparr>tables := (tables d)(t := None)\<rparr>))
      | SelectAll t \<Rightarrow>
          (case tables d t of
             None \<Rightarrow> (Err (UndefinedTable t), d)
           | Some rows \<Rightarrow> (Ok, d)))"

text \<open>Modelled from the spec: \<open>db.Exec(sql)\<close>, the statement run on the connection.\<close>

definition db_Exec :: "conn_state \<Rightarrow> stmt \<Rightarrow> Server \<Rightarrow> outcome \<times> Server" where
  "db_Exec c q d =
     (case c of
        Unopened \<Rightarrow> (Panic NilPointerDereference, d)
      | Closed \<Rightarrow> (Err ConnectionClosed, d)
      | Open \<Rightarrow> run_stmt q (log_call (Exec q) d))"

text \<open>
  Modelled from the spec: \<open>db.Query(&lines, sql)\<close>, "querying into a row collection":
  the rows of the table selected from, or the error.
\<close>

definition db_Query ::
  "conn_state \<Rightarrow> stmt \<Rightarrow> Server \<Rightarrow> outcome \<times> CasbinRule list \<times> Server" where
  "db_Query c q d =
     (case c of
        Unopened \<Rightarrow> (Panic NilPointerDereference, [], d)
      | Closed \<Rightarrow> (Err ConnectionClosed, [], d)
      | Open \<Rightarrow>
          (case run_stmt q (log_call (Query q) d) of
             (Ok, d') \<Rightarrow>
               (case q of
                  SelectAll t \<Rightarrow> (Ok, (case tables d' t of None \<Rightarrow> [] | Some rows \<Rightarrow> rows), d')
                | CreateTableIfNotExists t \<Rightarrow> (Ok, [], d')
                | DropTable t \<Rightarrow> (Ok, [], d'))
           | (err, d') \<Rightarrow> (err, [], d')))"

text \<open>
  Modelled from the spec: \<open>db.Insert(&line)\<close>, "row insert": one more row in the table
  of \<open>CasbinRule\<close>, unless the server does not take the row (\<open>accepts\<close>: a value too
  long for its column, a lost connection), which is the error the call returns.
  Nothing is unique in the table ("No uniqueness check"): a row may be there many
  times.
\<close>

definition db_Insert :: "conn_state \<Rightarrow> CasbinRule \<Rightarrow> Server \<Rightarrow> outcome \<times> Server" where
  "db_Insert c line d =
     (case c of
        Unopened \<Rightarrow> (Panic NilPointerDereference, d)
      | Closed \<Rightarrow> (Err ConnectionClosed, d)
      | Open \<Rightarrow>
          (let d' = log_call (Insert line) d in
           case tables d' CasbinRule_TableName of
             None \<Rightarrow> (Err (UndefinedTable CasbinRule_TableName), d')
           | Some rows \<Rightarrow>
               if accepts d' line
               then (Ok, d'\<lparr>tables := (tables d')(CasbinRule_TableName \<mapsto> rows @ [line])\<rparr>)
               else (Err (Rejected line), d')))"

text \<open>
  \<open>db.Delete(&line)\<close> of the library deletes the row that has the primary key of
  \<open>line\<close>. The source says at the call that \<open>db.Delete\<close> cannot be used, "as we're not
  using primary key": the struct \<open>CasbinRule\<close> marks no field as the key and
  \<open>createTable\<close> declares none. So the client refuses every such call: it returns
  an error, and no row is deleted, whether a row equal to \<open>line\<close> is stored or not.
  (The spec's "row delete-by-field-match" is what the adapter would need, not what
  this call does.)
\<close>

definition db_Delete :: "conn_state \<Rightarrow> CasbinRule \<Rightarrow> Server \<Rightarrow> outcome \<times> Server" where
  "db_Delete c line d =
     (case c of
        Unopened \<Rightarrow> (Panic NilPointerDereference, d)
      | Closed \<Rightarrow> (Err ConnectionClosed, d)
      | Open \<Rightarrow> (Err NoPrimaryKey, log_call (Delete line) d))"

section \<open>The adapter\<close>

text \<open>
  The struct \<open>Adapter\<close>. \<open>NewAdapter\<close> stores the four connection parameters and
  leaves \<open>db\<close> at its zero value, \<open>nil\<close>. (The struct of the source declares no field
  \<open>addr\<close>, though \<open>NewAdapter\<close> assigns it and \<open>open\<close> reads it; it is a field here.)
\<close>

record Adapter =
  user :: string
  password :: string
  database :: string
  addr :: string
  db :: conn_state

definition NewAdapter :: "string \<Rightarrow> string \<Rightarrow> string \<Rightarrow> string \<Rightarrow> Adapter" where
  "NewAdapter user' password' database' addr' =
     \<lparr>user = user', password = password', database = database', addr = addr',
      db = Unopened\<rparr>"

text \<open>\<open>createTable\<close> and \<open>dropTable\<close>: one \<open>Exec\<close>, whose error becomes a panic.\<close>

definition createTable :: "Adapter \<Rightarrow> Server \<Rightarrow> outcome \<times> Server" where
  "createTable a d =
     (case db_Exec (db a) createTable_sql d of
        (Err e, d') \<Rightarrow> (Panic (Panic_error e), d')
      | (r, d') \<Rightarrow> (r, d'))"

definition dropTable :: "Adapter \<Rightarrow> Server \<Rightarrow> outcome \<times> Server" where
  "dropTable a d =
     (case db_Exec (db a) dropTable_sql d of
        (Err e, d') \<Rightarrow> (Panic (Panic_error e), d')
      | (r, d') \<Rightarrow> (r, d'))"

text \<open>
  The methods \<open>open\<close> and \<open>close\<close> of the adapter (\<open>open\<close> is a keyword here, so
  both carry the receiver in their names). \<open>open\<close>: \<open>pg.Connect\<close> gives a fresh
  connection, stored in \<open>a.db\<close> whatever was there before, then \<open>createTable\<close>.
  \<open>close\<close> closes the connection; no operation of the adapter calls it (the two
  \<open>defer a.close()\<close> are commented out).
\<close>

definition adapter_open :: "Adapter \<Rightarrow> Server \<Rightarrow> outcome \<times> Adapter \<times> Server" where
  "adapter_open a d =
     (let d' = log_call Connect d;
          a' = a\<lparr>db := Open\<rparr>
      in case createTable a' d' of (r, d'') \<Rightarrow> (r, a', d''))"

definition adapter_close :: "Adapter \<Rightarrow> Server \<Rightarrow> outcome \<times> Adapter \<times> Server" where
  "adapter_close a d =
     (case db a of
        Unopened \<Rightarrow> (Panic NilPointerDereference, a, d)
      | Closed \<Rightarrow> (Ok, a, d)
      | Open \<Rightarrow> (Ok, a\<lparr>db := Closed\<rparr>, log_call Close d))"

text \<open>
  \<open>LoadPolicy\<close>: \<open>a.open()\<close>, the query, and every row of the result through
  \<open>loadPolicyLine\<close> into the caller's model.
\<close>

definition LoadPolicy ::
  "Adapter \<Rightarrow> Server \<Rightarrow> Model \<Rightarrow> outcome \<times> Adapter \<times> Server \<times> Model" where
  "LoadPolicy a d model =
     (case adapter_open a d of
        (Panic p, a', d') \<Rightarrow> (Panic p, a', d', model)
      | (r, a', d') \<Rightarrow>
          (case db_Query (db a') LoadPolicy_sqlstr d' of
             (Ok, lines, d'') \<Rightarrow>
               (case loadLines lines model of (r', model') \<Rightarrow> (r', a', d'', model'))
           | (err, lines, d'') \<Rightarrow> (err, a', d'', model)))"

text \<open>
  The two nested loops of \<open>SavePolicy\<close>: the rules of one assertion, and the
  assertions of one section. The first insert that fails ends \<open>SavePolicy\<close> with
  its error.
\<close>

fun insertRules :: "conn_state \<Rightarrow> string \<Rightarrow> Policy \<Rightarrow> Server \<Rightarrow> outcome \<times> Server" where
  "insertRules c ptype [] d = (Ok, d)"
| "insertRules c ptype (rule # rules) d =
     (case db_Insert c (savePolicyLine ptype rule) d of
        (Ok, d') \<Rightarrow> insertRules c ptype rules d'
      | (err, d') \<Rightarrow> (err, d'))"

fun insertSection :: "conn_state \<Rightarrow> AssertionMap \<Rightarrow> Server \<Rightarrow> outcome \<times> Server" where
  "insertSection c [] d = (Ok, d)"
| "insertSection c ((ptype, policy) # rest) d =
     (case insertRules c ptype policy d of
        (Ok, d') \<Rightarrow> insertSection c rest d'
      | (err, d') \<Rightarrow> (err, d'))"

definition SavePolicy :: "Adapter \<Rightarrow> Server \<Rightarrow> Model \<Rightarrow> outcome \<times> Adapter \<times> Server" where
  "SavePolicy a d model =
     (case adapter_open a d of
        (Panic p, a', d') \<Rightarrow> (Panic p, a', d')
      | (r, a', d') \<Rightarrow>
          (case dropTable a' d' of
             (Panic p, d'') \<Rightarrow> (Panic p, a', d'')
           | (r', d'') \<Rightarrow>
               (case createTable a' d'' of
                  (Panic p, d3) \<Rightarrow> (Panic p, a', d3)
                | (r'', d3) \<Rightarrow>
                    (case insertSection (db a') (model ''p'') d3 of
                       (Ok, d4) \<Rightarrow>
                         (case insertSection (db a') (model ''g'') d4 of
                            (r3, d5) \<Rightarrow> (r3, a', d5))
                     | (err, d4) \<Rightarrow> (err, a', d4)))))"

text \<open>\<open>AddPolicy\<close> and \<open>RemovePolicy\<close>: the rule encoded, and one call on \<open>a.db\<close>.\<close>

definition AddPolicy ::
  "Adapter \<Rightarrow> Server \<Rightarrow> string \<Rightarrow> string \<Rightarrow> string list \<Rightarrow> outcome \<times> Adapter \<times> Server" where
  "AddPolicy a d sec ptype rule =
     (let line = savePolicyLine ptype rule
      in case db_Insert (db a) line d of (err, d') \<Rightarrow> (err, a, d'))"

definition RemovePolicy ::
  "Adapter \<Rightarrow> Server \<Rightarrow> string \<Rightarrow> string \<Rightarrow> string list \<Rightarrow> outcome \<times> Adapter \<times> Server" where
  "RemovePolicy a d sec ptype rule =
     (let line = savePolicyLine ptype rule
      in case db_Delete (db a) line d of (err, d') \<Rightarrow> (err, a, d'))"

text \<open>
  \<open>RemoveFilteredPolicy\<close> builds its row by six guarded assignments. \<open>covers\<close> is the
  guard of column \<open>i\<close>, \<open>fieldIndex <= i && i < fieldIndex+len(fieldValues)\<close>, and
  \<open>offset\<close> the index \<open>i-fieldIndex\<close> it reads \<open>fieldValues\<close> at, both in Go's
  arithmetic; \<open>assign_if\<close> is one of the six statements.
\<close>

definition covers :: "int \<Rightarrow> string list \<Rightarrow> int \<Rightarrow> bool" where
  "covers fieldIndex fieldValues i =
     (fieldIndex \<le> i \<and> i < wrap64 (fieldIndex + int (length fieldValues)))"

definition offset :: "int \<Rightarrow> int \<Rightarrow> int" where
  "offset fieldIndex i = wrap64 (i - fieldIndex)"

definition assign_if ::
  "int \<Rightarrow> string list \<Rightarrow> int \<Rightarrow> (string \<Rightarrow> CasbinRule \<Rightarrow> CasbinRule) \<Rightarrow> CasbinRule
     \<Rightarrow> panic + CasbinRule" where
  "assign_if fieldIndex fieldValues i assign line =
     (if covers fieldIndex fieldValues i
      then (case go_index fieldValues (offset fieldIndex i) of
              Inl p \<Rightarrow> Inl p
            | Inr v \<Rightarrow> Inr (assign v line))
      else Inr line)"

definition RemoveFilteredPolicy_line :: "string \<Rightarrow> int \<Rightarrow> string list \<Rightarrow> panic + CasbinRule" where
  "RemoveFilteredPolicy_line ptype fieldIndex fieldValues =
     then_do (Inr (CasbinRule_zero\<lparr>PType := ptype\<rparr>)) (\<lambda>line.
     then_do (assign_if fieldIndex fieldValues 0 (\<lambda>v l. l\<lparr>V0 := v\<rparr>) line) (\<lambda>line.
     then_do (assign_if fieldIndex fieldValues 1 (\<lambda>v l. l\<lparr>V1 := v\<rparr>) line) (\<lambda>line.
     then_do (assign_if fieldIndex fieldValues 2 (\<lambda>v l. l\<lparr>V2 := v\<rparr>) line) (\<lambda>line.
     then_do (assign_if fieldIndex fieldValues 3 (\<lambda>v l. l\<lparr>V3 := v\<rparr>) line) (\<lambda>line.
     then_do (assign_if fieldIndex fieldValues 4 (\<lambda>v l. l\<lparr>V4 := v\<rparr>) line) (\<lambda>line.
     assign_if fieldIndex fieldValues 5 (\<lambda>v l. l\<lparr>V5 := v\<rparr>) line))))))"

definition RemoveFilteredPolicy ::
  "Adapter \<Rightarrow> Server \<Rightarrow> string \<Rightarrow> string \<Rightarrow> int \<Rightarrow> string list \<Rightarrow> outcome \<times> Adapter \<times> Server" where
  "RemoveFilteredPolicy a d sec ptype fieldIndex fieldValues =
     (case RemoveFilteredPolicy_line ptype fieldIndex fieldValues of
        Inl p \<Rightarrow> (Panic p, a, d)
      | Inr line \<Rightarrow> (case db_Delete (db a) line d of (err, d') \<Rightarrow> (err, a, d')))"

section \<open>Reference values\<close>

text \<open>The rows \<open>SavePolicy\<close> is to write for one section: one per rule, in order.\<close>

definition section_rows :: "AssertionMap \<Rightarrow> CasbinRule list" where
  "section_rows am = concat (map (\<lambda>(ptype, policy). map (savePolicyLine ptype) policy) am)"

text \<open>
  A new adapter and a database with no table that takes every row; a model that
  declares the types \<open>p\<close> and \<open>g\<close> and has no rule; and the model of the spec's
  round trip.
\<close>

definition adapter0 :: Adapter where
  "adapter0 = NewAdapter ''postgres'' ''secret'' ''casbin'' ''localhost:5432''"

definition server0 :: Server where
  "server0 = \<lparr>tables = Map.empty, accepts = (\<lambda>line. True), trace = []\<rparr>"

definition empty_model :: Model where
  "empty_model = (\<lambda>sec. [])(''p'' := [(''p'', [])], ''g'' := [(''g'', [])])"

definition example_model :: Model where
  "example_model = (\<lambda>sec. [])
     (''p'' := [(''p'', [[''alice'', ''data1'', ''read''], [''bob'', ''data2'', ''write'']])],
      ''g'' := [(''g'', [[''alice'', ''admin'']])])"

text \<open>
  The same adapter once its connection is open, and a database whose table holds
  the one row of the rule \<open>(p, alice, data1, read)\<close>.
\<close>

definition adapter1 :: Adapter where
  "adapter1 = adapter0\<lparr>db := Open\<rparr>"

definition server1 :: Server where
  "server1 = server0\<lparr>tables :=
     [''x_policy'' \<mapsto> [savePolicyLine ''p'' [''alice'', ''data1'', ''read'']]]\<rparr>"

text \<open>
  The spec's round trip: \<open>SavePolicy\<close> of the example model on the new adapter and
  the empty database, then \<open>LoadPolicy\<close> into the model without rules.
\<close>

definition saved_then_loaded :: "outcome \<times> Adapter \<times> Server \<times> Model" where
  "saved_then_loaded =
     (case SavePolicy adapter0 server0 example_model of
        (r, a, d) \<Rightarrow> LoadPolicy a d empty_model)"

section \<open>Properties of the codec\<close>

lemma columns_savePolicyLine_short:
  "length rule \<le> 6 \<Longrightarrow>
     columns (savePolicyLine ptype rule) = rule @ replicate (6 - length rule) []"
proof -
  assume len: "length rule \<le> 6"
  consider "rule = []" | a where "rule = [a]" | a b where "rule = [a, b]"
    | a b c where "rule = [a, b, c]" | a b c d where "rule = [a, b, c, d]"
    | a b c d e where "rule = [a, b, c, d, e]"
    | a b c d e f where "rule = [a, b, c, d, e, f]"
    using len
    by (cases rule; simp; rename_tac r1; case_tac r1; simp;
        rename_tac r2; case_tac r2; simp; rename_tac r3; case_tac r3; simp;
        rename_tac r4; case_tac r4; simp; rename_tac r5; case_tac r5; simp)
  then show ?thesis
    by cases
      (simp_all add: savePolicyLine_def columns_def CasbinRule_zero_def numeral_eq_Suc)
qed

lemma savePolicyLine_take:
  "savePolicyLine ptype rule = savePolicyLine ptype (take 6 rule)"
  by (simp add: savePolicyLine_def Let_def)

lemma PType_savePolicyLine: "PType (savePolicyLine ptype rule) = ptype"
  by (simp add: savePolicyLine_def Let_def)

text \<open>
  Claim C4. For every policy type and every list of fields, \<open>savePolicyLine\<close> sets the
  type column to the policy type, sets value column \<open>i\<close> to \<open>rule[i]\<close> for every
  \<open>i\<close> below \<open>min (length rule) 6\<close>, leaves every remaining value column the empty
  string, and drops the fields from index 6 on: the six value columns are the first
  six fields, padded with empty strings, and the row is the row of the first six
  fields alone.
\<close>

theorem savePolicyLine_row:
  "PType (savePolicyLine ptype rule) = ptype \<and>
   columns (savePolicyLine ptype rule) =
     take 6 rule @ replicate (6 - min (length rule) 6) [] \<and>
   savePolicyLine ptype rule = savePolicyLine ptype (take 6 rule)"
proof -
  have "columns (savePolicyLine ptype (take 6 rule)) =
          take 6 rule @ replicate (6 - length (take 6 rule)) []"
    by (rule columns_savePolicyLine_short) simp
  moreover have "savePolicyLine ptype rule = savePolicyLine ptype (take 6 rule)"
    by (rule savePolicyLine_take)
  ultimately show ?thesis
    by (simp add: PType_savePolicyLine)
qed

lemma loadPolicyLine_text_eq:
  "loadPolicyLine_text line =
     PType line @ concat (map (\<lambda>v. '', '' @ v) (filter (\<lambda>v. v \<noteq> []) (columns line)))"
  by (simp add: loadPolicyLine_text_def columns_def Let_def)

text \<open>
  Claim C5. For every stored row, \<open>loadPolicyLine\<close> builds the text line that starts
  with the type column and continues with the value columns \<open>v0 .. v5\<close> in column
  order, each after the separator \<open>", "\<close>, leaving out exactly the value columns
  that are the empty string.
\<close>

theorem loadPolicyLine_text_columns:
  "loadPolicyLine_text line =
     PType line @ concat (map (\<lambda>v. '', '' @ v) (filter (\<lambda>v. v \<noteq> []) (columns line)))"
  by (rule loadPolicyLine_text_eq)

section \<open>The round trip of one rule\<close>

lemma split_comma_whole: "CHR '','' \<notin> set t \<Longrightarrow> split_comma t = [t]"
  by (induction t) auto

lemma split_comma_first:
  "CHR '','' \<notin> set t \<Longrightarrow> split_comma (t @ CHR '','' # r) = t # split_comma r"
  by (induction t) auto

lemma split_comma_joined:
  assumes "CHR '','' \<notin> set t" and "\<forall>f\<in>set fs. CHR '','' \<notin> set f"
  shows "split_comma (t @ concat (map (\<lambda>v. '', '' @ v) fs)) = t # map (\<lambda>v. CHR '' '' # v) fs"
  using assms
proof (induction fs arbitrary: t)
  case Nil
  then show ?case by (simp add: split_comma_whole)
next
  case (Cons f fs)
  have "split_comma (t @ CHR '','' # ((CHR '' '' # f) @ concat (map (\<lambda>v. '', '' @ v) fs))) =
          t # split_comma ((CHR '' '' # f) @ concat (map (\<lambda>v. '', '' @ v) fs))"
    using Cons.prems(1) by (rule split_comma_first)
  also have "split_comma ((CHR '' '' # f) @ concat (map (\<lambda>v. '', '' @ v) fs)) =
          (CHR '' '' # f) # map (\<lambda>v. CHR '' '' # v) fs"
    using Cons.prems(2) by (intro Cons.IH) simp_all
  finally show ?case by simp
qed

lemma strip_space_blank: "strip_space white_space (CHR '' '' # s) = Some s"
  by (simp add: strip_space_def white_space_def)

lemma TrimSpace_blank: "TrimSpace (CHR '' '' # s) = TrimSpace s"
  by (simp add: TrimSpace_def trim_left.simps [of white_space "CHR '' '' # s"] strip_space_blank)

lemma text_of_saved:
  assumes "length rule \<le> 6" and "\<forall>f\<in>set rule. f \<noteq> []"
  shows "loadPolicyLine_text (savePolicyLine ptype rule) =
           ptype @ concat (map (\<lambda>v. '', '' @ v) rule)"
proof -
  have "filter (\<lambda>v. v \<noteq> []) (rule @ replicate (6 - length rule) []) = rule"
    using assms(2) by (simp add: filter_id_conv)
  then show ?thesis
    using assms(1)
    by (simp add: loadPolicyLine_text_eq columns_savePolicyLine_short PType_savePolicyLine)
qed

lemma TrimSpace_examples:
  "TrimSpace ''p'' = ''p''" "TrimSpace ''alice'' = ''alice''"
  "TrimSpace ''data1'' = ''data1''" "TrimSpace ''read'' = ''read''"
  "TrimSpace '' alice'' = ''alice''" "TrimSpace '' data1'' = ''data1''"
  "TrimSpace '' read'' = ''read''"
  "TrimSpace '' a'' = ''a''" "TrimSpace '' b'' = ''b''" "TrimSpace ''  a'' = ''a''"
  "TrimSpace ''g'' = ''g''" "TrimSpace '' bob'' = ''bob''" "TrimSpace '' data2'' = ''data2''"
  "TrimSpace '' write'' = ''write''" "TrimSpace '' admin'' = ''admin''"
  by code_simp+

text \<open>
  Claim C3, at a field that holds a comma. The rule has the one field \<open>"a, b"\<close>,
  not empty; the row decodes to the line \<open>p, a, b\<close>, which the line-loader splits
  into the type and two fields: the rule loaded is \<open>["a", "b"]\<close>, not the original.
  Likewise the field \<open>" a"\<close> is loaded as \<open>"a"\<close>, its white space trimmed; the line of
  a type that starts with \<open>#\<close> is skipped; and the rule of no fields under the empty
  type decodes to the empty line, of which nothing is loaded.
\<close>

theorem codec_round_trip_counterexample:
  "length [''a, b''] \<le> 6 \<and> ''a, b'' \<noteq> [] \<and>
   loadPolicyLine_text (savePolicyLine ''p'' [''a, b'']) = ''p, a, b'' \<and>
   map TrimSpace (split_comma (loadPolicyLine_text (savePolicyLine ''p'' [''a, b'']))) =
     [''p'', ''a'', ''b''] \<and>
   loadPolicyLine (savePolicyLine ''p'' [''a, b'']) empty_model =
     Inr (empty_model(''p'' := [(''p'', [[''a'', ''b'']])])) \<and>
   [''a'', ''b''] \<noteq> [''a, b''] \<and>
   loadPolicyLine (savePolicyLine ''p'' ['' a'']) empty_model =
     Inr (empty_model(''p'' := [(''p'', [[''a'']])])) \<and>
   loadPolicyLine (savePolicyLine ''#p'' [''a'']) empty_model = Inr empty_model \<and>
   loadPolicyLine (savePolicyLine [] []) empty_model = Inr empty_model"
  by (simp add: loadPolicyLine_def persist_LoadPolicyLine_def loadPolicyLine_text_def
      savePolicyLine_def CasbinRule_zero_def empty_model_def set_Policy_def Let_def fun_eq_iff
      TrimSpace_examples)

text \<open>
  Claim C3, amended. For every policy type and every list of at most 6 fields,
  where the type and every field are not empty, hold no comma and have no white
  space at either end, and the type does not start with \<open>#\<close>: the line decoded from
  the encoded row is split and trimmed by the line-loader into the type and the
  original fields, in order and with nothing after them; and \<open>loadPolicyLine\<close> on a
  model that declares the type appends the original rule to the policy of the type.
\<close>

theorem codec_round_trip:
  assumes "length rule \<le> 6"
    and "\<forall>f\<in>set rule. f \<noteq> [] \<and> CHR '','' \<notin> set f \<and> TrimSpace f = f"
    and "ptype \<noteq> []" and "CHR '','' \<notin> set ptype" and "TrimSpace ptype = ptype"
    and "take 1 ptype \<noteq> ''#''"
    and "map_of (model (take 1 ptype)) ptype = Some policy"
  shows "map TrimSpace (split_comma (loadPolicyLine_text (savePolicyLine ptype rule))) =
           ptype # rule \<and>
         loadPolicyLine (savePolicyLine ptype rule) model =
           Inr (model(take 1 ptype :=
                  set_Policy ptype (policy @ [rule]) (model (take 1 ptype))))"
proof -
  let ?line = "loadPolicyLine_text (savePolicyLine ptype rule)"
  have line_eq: "?line = ptype @ concat (map (\<lambda>v. '', '' @ v) rule)"
    using assms(1,2) by (intro text_of_saved) simp_all
  have split_eq: "split_comma (ptype @ concat (map (\<lambda>v. '', '' @ v) rule)) =
      ptype # map (\<lambda>v. CHR '' '' # v) rule"
    using assms(2,4) by (intro split_comma_joined) simp_all
  have trim_eq: "map TrimSpace (map (\<lambda>v. CHR '' '' # v) rule) = rule"
    using assms(2) by (simp add: TrimSpace_blank map_idI)
  have parse: "map TrimSpace (split_comma ?line) = ptype # rule"
    using trim_eq assms(5) by (simp only: line_eq split_eq list.map)
  have ne: "?line \<noteq> []"
    using assms(3) by (simp add: line_eq)
  have "take 1 ?line = take 1 ptype"
    unfolding line_eq using assms(3) by (cases ptype) simp_all
  then have no_hash: "take 1 ?line \<noteq> ''#''"
    using assms(6) by simp
  show ?thesis
    using assms(3,7) ne no_hash
    by (simp add: loadPolicyLine_def persist_LoadPolicyLine_def parse Let_def)
qed

theorem codec_round_trip_witness:
  "length [''alice'', ''data1'', ''read''] \<le> 6 \<and>
   TrimSpace ''alice'' = ''alice'' \<and> TrimSpace ''data1'' = ''data1'' \<and>
   TrimSpace ''read'' = ''read'' \<and> TrimSpace ''p'' = ''p'' \<and>
   CHR '','' \<notin> set ''alice'' \<and> CHR '','' \<notin> set ''data1'' \<and> CHR '','' \<notin> set ''read'' \<and>
   CHR '','' \<notin> set ''p'' \<and> take 1 ''p'' \<noteq> ''#'' \<and>
   map_of (empty_model (take 1 ''p'')) ''p'' = Some [] \<and>
   map TrimSpace
     (split_comma (loadPolicyLine_text (savePolicyLine ''p'' [''alice'', ''data1'', ''read'']))) =
     [''p'', ''alice'', ''data1'', ''read''] \<and>
   loadPolicyLine (savePolicyLine ''p'' [''alice'', ''data1'', ''read'']) empty_model =
     Inr (empty_model(''p'' := [(''p'', [[''alice'', ''data1'', ''read'']])]))"
proof -
  have len: "length [''alice'', ''data1'', ''read''] \<le> 6"
    by simp
  note trims = TrimSpace_examples(1-4)
  have commas: "CHR '','' \<notin> set ''alice''" "CHR '','' \<notin> set ''data1''"
    "CHR '','' \<notin> set ''read''" "CHR '','' \<notin> set ''p''"
    by simp_all
  have fs: "\<forall>f\<in>set [''alice'', ''data1'', ''read''].
              f \<noteq> [] \<and> CHR '','' \<notin> set f \<and> TrimSpace f = f"
    using trims by simp
  have p: "''p'' \<noteq> []" and h: "take 1 ''p'' \<noteq> ''#''"
    by simp_all
  have m: "map_of (empty_model (take 1 ''p'')) ''p'' = Some []"
    by (simp add: empty_model_def)
  have s: "set_Policy ''p'' ([] @ [[''alice'', ''data1'', ''read'']]) (empty_model (take 1 ''p'')) =
             [(''p'', [[''alice'', ''data1'', ''read'']])]"
    by (simp add: set_Policy_def empty_model_def)
  from codec_round_trip [of "[''alice'', ''data1'', ''read'']" "''p''" empty_model "[]",
      OF len fs p commas(4) trims(1) h m]
    len trims commas h m s show ?thesis
    by simp
qed

section \<open>The filtered delete\<close>

lemma wrap64_id: "- (2 ^ 63) \<le> x \<Longrightarrow> x < 2 ^ 63 \<Longrightarrow> wrap64 x = x"
  unfolding wrap64_def by (subst mod_pos_pos_trivial) simp_all

lemma wrap64_high: "2 ^ 63 \<le> x \<Longrightarrow> x < 2 ^ 64 + 2 ^ 63 \<Longrightarrow> wrap64 x = x - 2 ^ 64"
proof -
  assume a: "2 ^ 63 \<le> x" "x < 2 ^ 64 + 2 ^ 63"
  have "(x + 2 ^ 63) mod 2 ^ 64 = (x + 2 ^ 63 - 2 ^ 64) mod 2 ^ 64"
    by (rule minus_mod_self2 [symmetric])
  also have "\<dots> = x + 2 ^ 63 - 2 ^ 64"
    using a by (intro mod_pos_pos_trivial) simp_all
  finally show ?thesis
    unfolding wrap64_def by simp
qed

lemma covers_offset:
  assumes lo: "- (2 ^ 63) \<le> fieldIndex" and hi: "fieldIndex < 2 ^ 63"
    and len: "int (length fieldValues) < 2 ^ 63"
    and cov: "covers fieldIndex fieldValues i"
  shows "0 \<le> offset fieldIndex i \<and> offset fieldIndex i < int (length fieldValues)"
proof -
  let ?n = "int (length fieldValues)"
  from cov have le: "fieldIndex \<le> i" and lt: "i < wrap64 (fieldIndex + ?n)"
    by (simp_all add: covers_def)
  show ?thesis
  proof (cases "fieldIndex + ?n < 2 ^ 63")
    case True
    with lo have "wrap64 (fieldIndex + ?n) = fieldIndex + ?n"
      by (intro wrap64_id) simp_all
    with lt have "i - fieldIndex < ?n" by simp
    moreover from le have "0 \<le> i - fieldIndex" by simp
    moreover from calculation len have "wrap64 (i - fieldIndex) = i - fieldIndex"
      by (intro wrap64_id) simp_all
    ultimately show ?thesis by (simp add: offset_def)
  next
    case False
    with hi len have "wrap64 (fieldIndex + ?n) = fieldIndex + ?n - 2 ^ 64"
      by (intro wrap64_high) simp_all
    with lt len have "i < fieldIndex" by simp
    with le show ?thesis by simp
  qed
qed

lemma assign_if_Inr:
  assumes "- (2 ^ 63) \<le> fieldIndex" "fieldIndex < 2 ^ 63" "int (length fieldValues) < 2 ^ 63"
  shows "\<exists>line'. assign_if fieldIndex fieldValues i assign line = Inr line'"
  using covers_offset [OF assms, of i]
  by (simp add: assign_if_def go_index_def)

lemma RemoveFilteredPolicy_line_Inr:
  assumes "- (2 ^ 63) \<le> fieldIndex" "fieldIndex < 2 ^ 63" "int (length fieldValues) < 2 ^ 63"
  shows "\<exists>line. RemoveFilteredPolicy_line ptype fieldIndex fieldValues = Inr line"
proof -
  note step = assign_if_Inr [OF assms]
  obtain l0 where l0: "assign_if fieldIndex fieldValues 0 (\<lambda>v l. l\<lparr>V0 := v\<rparr>) (CasbinRule_zero\<lparr>PType := ptype\<rparr>) = Inr l0"
    using step by blast
  obtain l1 where l1: "assign_if fieldIndex fieldValues 1 (\<lambda>v l. l\<lparr>V1 := v\<rparr>) l0 = Inr l1"
    using step by blast
  obtain l2 where l2: "assign_if fieldIndex fieldValues 2 (\<lambda>v l. l\<lparr>V2 := v\<rparr>) l1 = Inr l2"
    using step by blast
  obtain l3 where l3: "assign_if fieldIndex fieldValues 3 (\<lambda>v l. l\<lparr>V3 := v\<rparr>) l2 = Inr l3"
    using step by blast
  obtain l4 where l4: "assign_if fieldIndex fieldValues 4 (\<lambda>v l. l\<lparr>V4 := v\<rparr>) l3 = Inr l4"
    using step by blast
  obtain l5 where l5: "assign_if fieldIndex fieldValues 5 (\<lambda>v l. l\<lparr>V5 := v\<rparr>) l4 = Inr l5"
    using step by blast
  show ?thesis
    by (simp add: RemoveFilteredPolicy_line_def then_do_def l0 l1 l2 l3 l4 l5)
qed

lemma db_Delete_no_index_panic: "fst (db_Delete c line d) \<noteq> Panic IndexOutOfRange"
  by (simp add: db_Delete_def Let_def split: conn_state.splits option.splits)

text \<open>
  Claim C10. For every \<open>fieldIndex\<close> a Go \<open>int\<close> can hold, negative and beyond 5
  included, and every \<open>fieldValues\<close>, the reads of \<open>fieldValues\<close> in
  \<open>RemoveFilteredPolicy\<close> are in bounds: whenever the guard of a column holds, the
  index \<open>i - fieldIndex\<close> it reads at is at least 0 and below \<open>len(fieldValues)\<close>, in
  Go's wrapping arithmetic; so the row is built without a panic, and the operation
  never ends in an index-out-of-range panic.
\<close>

theorem RemoveFilteredPolicy_reads_in_bounds:
  assumes "- (2 ^ 63) \<le> fieldIndex" and "fieldIndex < 2 ^ 63"
    and "int (length fieldValues) < 2 ^ 63"
  shows "(\<forall>i. covers fieldIndex fieldValues i \<longrightarrow>
            0 \<le> offset fieldIndex i \<and> offset fieldIndex i < int (length fieldValues)) \<and>
         (\<exists>line. RemoveFilteredPolicy_line ptype fieldIndex fieldValues = Inr line) \<and>
         fst (RemoveFilteredPolicy a d sec ptype fieldIndex fieldValues) \<noteq> Panic IndexOutOfRange"
proof (intro conjI allI impI)
  fix i assume "covers fieldIndex fieldValues i"
  with assms show "0 \<le> offset fieldIndex i" "offset fieldIndex i < int (length fieldValues)"
    using covers_offset by blast+
next
  show "\<exists>line. RemoveFilteredPolicy_line ptype fieldIndex fieldValues = Inr line"
    using assms by (rule RemoveFilteredPolicy_line_Inr)
next
  obtain line where "RemoveFilteredPolicy_line ptype fieldIndex fieldValues = Inr line"
    using RemoveFilteredPolicy_line_Inr [OF assms] by blast
  then show "fst (RemoveFilteredPolicy a d sec ptype fieldIndex fieldValues) \<noteq> Panic IndexOutOfRange"
    using db_Delete_no_index_panic [of "db a" line d]
    by (cases "db_Delete (db a) line d") (simp add: RemoveFilteredPolicy_def)
qed

theorem RemoveFilteredPolicy_reads_in_bounds_witness:
  "covers (- 2) [''a'', ''b'', ''c'', ''d''] 1 \<and>
   offset (- 2) 1 = 3 \<and>
   RemoveFilteredPolicy_line ''p'' (- 2) [''a'', ''b'', ''c'', ''d''] =
     Inr (CasbinRule_zero\<lparr>PType := ''p'', V0 := ''c'', V1 := ''d''\<rparr>) \<and>
   fst (RemoveFilteredPolicy adapter0 server0 ''p'' ''p'' (- 2) [''a'', ''b'', ''c'', ''d''])
     \<noteq> Panic IndexOutOfRange"
proof -
  have r: "- (2 ^ 63) \<le> (- 2 :: int)" "(- 2 :: int) < 2 ^ 63"
    "int (length [''a'', ''b'', ''c'', ''d'']) < 2 ^ 63"
    by simp_all
  have c: "covers (- 2) [''a'', ''b'', ''c'', ''d''] 1"
    by (simp add: covers_def wrap64_id)
  have o: "offset (- 2) 1 = 3"
    by (simp add: offset_def wrap64_id)
  have l: "RemoveFilteredPolicy_line ''p'' (- 2) [''a'', ''b'', ''c'', ''d''] =
     Inr (CasbinRule_zero\<lparr>PType := ''p'', V0 := ''c'', V1 := ''d''\<rparr>)"
    by (simp add: RemoveFilteredPolicy_line_def then_do_def assign_if_def covers_def
        offset_def wrap64_id go_index_def)
  from RemoveFilteredPolicy_reads_in_bounds [OF r, of "''p''" adapter0 server0 "''p''"] c o l
  show ?thesis by simp
qed

text \<open>
  The row \<open>RemoveFilteredPolicy\<close> builds when the range is within the schema: the
  columns \<open>fieldIndex .. fieldIndex + len(fieldValues) - 1\<close> hold the given values
  and every other value column is the empty string.
\<close>

lemma assign_if_in_range:
  assumes "0 \<le> fieldIndex" and "fieldIndex + int (length fieldValues) \<le> 6"
    and "0 \<le> i" and "i \<le> 5"
  shows "assign_if fieldIndex fieldValues i assign line =
           Inr (if fieldIndex \<le> i \<and> i < fieldIndex + int (length fieldValues)
                then assign (fieldValues ! nat (i - fieldIndex)) line else line)"
proof -
  have "- (2 ^ 63) \<le> fieldIndex + int (length fieldValues)"
    using assms(1) by simp
  moreover have "fieldIndex + int (length fieldValues) < 2 ^ 63"
    using assms(2) by simp
  ultimately have sum: "wrap64 (fieldIndex + int (length fieldValues)) =
      fieldIndex + int (length fieldValues)"
    by (rule wrap64_id)
  have "- (2 ^ 63) \<le> i - fieldIndex"
    using assms(2,3) by simp
  moreover have "i - fieldIndex < 2 ^ 63"
    using assms(1,4) by simp
  ultimately have diff: "wrap64 (i - fieldIndex) = i - fieldIndex"
    by (rule wrap64_id)
  show ?thesis
    by (simp add: assign_if_def covers_def offset_def go_index_def sum diff)
qed

lemma RemoveFilteredPolicy_line_in_range:
  assumes "0 \<le> fieldIndex" and "fieldIndex + int (length fieldValues) \<le> 6"
  shows "\<exists>line. RemoveFilteredPolicy_line ptype fieldIndex fieldValues = Inr line \<and>
           PType line = ptype \<and>
           columns line =
             map (\<lambda>i. if fieldIndex \<le> i \<and> i < fieldIndex + int (length fieldValues)
                       then fieldValues ! nat (i - fieldIndex) else [])
               [0, 1, 2, 3, 4, 5]"
  by (simp add: RemoveFilteredPolicy_line_def then_do_def assign_if_in_range [OF assms]
      columns_def CasbinRule_zero_def)

section \<open>Deleting rows\<close>

text \<open>
  Claim C8, at a rule that is not stored. The adapter's connection is open and the
  table holds the one row of \<open>(p, alice, data1, read)\<close>. \<open>RemovePolicy\<close> of the rule
  \<open>(p, bob, data2, write)\<close>, of which no row is stored, leaves the table as it was
  but returns the error of \<open>db.Delete\<close>, not success; and \<open>RemovePolicy\<close> of the
  stored rule returns the same error and deletes nothing.
\<close>

theorem RemovePolicy_returns_error:
  "db adapter1 = Open \<and>
   tables server1 ''x_policy'' = Some [savePolicyLine ''p'' [''alice'', ''data1'', ''read'']] \<and>
   savePolicyLine ''p'' [''bob'', ''data2'', ''write'']
     \<notin> set [savePolicyLine ''p'' [''alice'', ''data1'', ''read'']] \<and>
   fst (RemovePolicy adapter1 server1 ''p'' ''p'' [''bob'', ''data2'', ''write'']) =
     Err NoPrimaryKey \<and>
   tables (snd (snd (RemovePolicy adapter1 server1 ''p'' ''p'' [''bob'', ''data2'', ''write''])))
     = tables server1 \<and>
   fst (RemovePolicy adapter1 server1 ''p'' ''p'' [''alice'', ''data1'', ''read'']) =
     Err NoPrimaryKey \<and>
   tables (snd (snd (RemovePolicy adapter1 server1 ''p'' ''p'' [''alice'', ''data1'', ''read''])))
     = tables server1"
proof -
  have n: "savePolicyLine ''p'' [''bob'', ''data2'', ''write'']
     \<notin> set [savePolicyLine ''p'' [''alice'', ''data1'', ''read'']]"
    by (simp add: savePolicyLine_def CasbinRule_zero_def)
  show ?thesis
    using n
    by (simp add: RemovePolicy_def db_Delete_def log_call_def adapter1_def server1_def
        server0_def Let_def)
qed

text \<open>
  The row \<open>RemoveFilteredPolicy\<close> builds for \<open>fieldIndex = 0\<close> is the row
  \<open>RemovePolicy\<close> builds for the same values, so the two operations make the same
  call of \<open>db.Delete\<close>: to the database client a column the filter leaves open and
  a field the rule does not have are the same empty string.
\<close>

lemma RemoveFilteredPolicy_line_0:
  assumes "length fieldValues \<le> 6"
  shows "RemoveFilteredPolicy_line ptype 0 fieldValues = Inr (savePolicyLine ptype fieldValues)"
proof -
  consider "fieldValues = []" | a where "fieldValues = [a]" | a b where "fieldValues = [a, b]"
    | a b c where "fieldValues = [a, b, c]" | a b c d where "fieldValues = [a, b, c, d]"
    | a b c d e where "fieldValues = [a, b, c, d, e]"
    | a b c d e f where "fieldValues = [a, b, c, d, e, f]"
    using assms
    by (cases fieldValues; simp; rename_tac r1; case_tac r1; simp;
        rename_tac r2; case_tac r2; simp; rename_tac r3; case_tac r3; simp;
        rename_tac r4; case_tac r4; simp; rename_tac r5; case_tac r5; simp)
  then show ?thesis
    by cases
      (simp_all add: RemoveFilteredPolicy_line_def then_do_def assign_if_def covers_def
         offset_def wrap64_id go_index_def savePolicyLine_def)
qed

lemma RemoveFilteredPolicy_0_is_RemovePolicy:
  "length fieldValues \<le> 6 \<Longrightarrow>
     RemoveFilteredPolicy a d sec ptype 0 fieldValues = RemovePolicy a d sec ptype fieldValues"
  by (simp add: RemoveFilteredPolicy_def RemovePolicy_def RemoveFilteredPolicy_line_0)

text \<open>
  Claim C7, at its own example. The table holds the one row of the rule
  \<open>(p, alice, data1, read)\<close>, and \<open>RemoveFilteredPolicy\<close> is called with
  \<open>fieldIndex = 1\<close> and \<open>fieldValues = ["data1"]\<close>. The row handed to \<open>db.Delete\<close> has
  \<open>data1\<close> in column 1 and the empty string in every other value column, and
  after the call the stored row is still in the table, as it is after the call
  with \<open>fieldValues = ["data2"]\<close>.
\<close>

theorem RemoveFilteredPolicy_keeps_example_row:
  "RemoveFilteredPolicy_line ''p'' 1 [''data1''] =
     Inr (CasbinRule_zero\<lparr>PType := ''p'', V1 := ''data1''\<rparr>) \<and>
   tables server1 ''x_policy'' = Some [savePolicyLine ''p'' [''alice'', ''data1'', ''read'']] \<and>
   tables (snd (snd (RemoveFilteredPolicy adapter1 server1 ''p'' ''p'' 1 [''data1''])))
     ''x_policy'' = Some [savePolicyLine ''p'' [''alice'', ''data1'', ''read'']] \<and>
   tables (snd (snd (RemoveFilteredPolicy adapter1 server1 ''p'' ''p'' 1 [''data2''])))
     ''x_policy'' = Some [savePolicyLine ''p'' [''alice'', ''data1'', ''read'']]"
  by (simp add: RemoveFilteredPolicy_def RemoveFilteredPolicy_line_def then_do_def assign_if_def
      covers_def offset_def wrap64_id go_index_def db_Delete_def log_call_def
      adapter1_def server1_def server0_def CasbinRule_zero_def)

section \<open>Saving the policy\<close>

lemma db_Insert_Open:
  assumes "tables d ''x_policy'' = Some rows" and "accepts d line"
  shows "db_Insert Open line d =
           (Ok, d\<lparr>tables := (tables d)(''x_policy'' \<mapsto> rows @ [line]),
                   trace := trace d @ [Insert line]\<rparr>)"
  using assms by (simp add: db_Insert_def log_call_def CasbinRule_TableName_def)

lemma insertRules_Open:
  assumes "tables d ''x_policy'' = Some rows"
    and "\<forall>rule\<in>set rules. accepts d (savePolicyLine ptype rule)"
  shows "insertRules Open ptype rules d =
           (Ok, d\<lparr>tables := (tables d)(''x_policy'' \<mapsto> rows @ map (savePolicyLine ptype) rules),
                   trace := trace d @ map Insert (map (savePolicyLine ptype) rules)\<rparr>)"
  using assms
proof (induction rules arbitrary: d rows)
  case Nil
  have "d\<lparr>tables := (tables d)(''x_policy'' \<mapsto> rows @ map (savePolicyLine ptype) []),
          trace := trace d @ map Insert (map (savePolicyLine ptype) [])\<rparr> = d"
    using Nil.prems by (intro Server.equality) (simp_all add: map_upd_triv)
  then show ?case
    by (simp only: insertRules.simps)
next
  case (Cons rule rules)
  let ?line = "savePolicyLine ptype rule"
  let ?d = "d\<lparr>tables := (tables d)(''x_policy'' \<mapsto> rows @ [?line]),
               trace := trace d @ [Insert ?line]\<rparr>"
  have step: "db_Insert Open ?line d = (Ok, ?d)"
    using Cons.prems by (intro db_Insert_Open) simp_all
  have ih: "insertRules Open ptype rules ?d =
          (Ok, ?d\<lparr>tables := (tables ?d)(''x_policy'' \<mapsto> (rows @ [?line]) @ map (savePolicyLine ptype) rules),
                   trace := trace ?d @ map Insert (map (savePolicyLine ptype) rules)\<rparr>)"
    using Cons.prems by (intro Cons.IH) simp_all
  have eq: "?d\<lparr>tables := (tables ?d)(''x_policy'' \<mapsto> (rows @ [?line]) @ map (savePolicyLine ptype) rules),
                   trace := trace ?d @ map Insert (map (savePolicyLine ptype) rules)\<rparr> =
            d\<lparr>tables := (tables d)(''x_policy'' \<mapsto> rows @ map (savePolicyLine ptype) (rule # rules)),
                   trace := trace d @ map Insert (map (savePolicyLine ptype) (rule # rules))\<rparr>"
    by (intro Server.equality) simp_all
  show ?case
    by (simp only: insertRules.simps step prod.case outcome.case ih eq)
qed

lemma insertSection_Open:
  assumes "tables d ''x_policy'' = Some rows"
    and "\<forall>line\<in>set (section_rows am). accepts d line"
  shows "insertSection Open am d =
           (Ok, d\<lparr>tables := (tables d)(''x_policy'' \<mapsto> rows @ section_rows am),
                   trace := trace d @ map Insert (section_rows am)\<rparr>)"
  using assms
proof (induction am arbitrary: d rows)
  case Nil
  have "d\<lparr>tables := (tables d)(''x_policy'' \<mapsto> rows @ section_rows []),
          trace := trace d @ map Insert (section_rows [])\<rparr> = d"
    using Nil.prems by (intro Server.equality) (simp_all add: map_upd_triv section_rows_def)
  then show ?case
    by (simp only: insertSection.simps)
next
  case (Cons entry am)
  obtain ptype policy where entry: "entry = (ptype, policy)"
    by (cases entry)
  let ?new = "map (savePolicyLine ptype) policy"
  let ?d = "d\<lparr>tables := (tables d)(''x_policy'' \<mapsto> rows @ ?new),
               trace := trace d @ map Insert ?new\<rparr>"
  have rows: "section_rows (entry # am) = ?new @ section_rows am"
    by (simp add: section_rows_def entry)
  have step: "insertRules Open ptype policy d = (Ok, ?d)"
    using Cons.prems by (intro insertRules_Open) (simp_all add: rows)
  have ih: "insertSection Open am ?d =
          (Ok, ?d\<lparr>tables := (tables ?d)(''x_policy'' \<mapsto> (rows @ ?new) @ section_rows am),
                   trace := trace ?d @ map Insert (section_rows am)\<rparr>)"
    using Cons.prems by (intro Cons.IH) (simp_all add: rows)
  have eq: "?d\<lparr>tables := (tables ?d)(''x_policy'' \<mapsto> (rows @ ?new) @ section_rows am),
                   trace := trace ?d @ map Insert (section_rows am)\<rparr> =
            d\<lparr>tables := (tables d)(''x_policy'' \<mapsto> rows @ section_rows ((ptype, policy) # am)),
                   trace := trace d @ map Insert (section_rows ((ptype, policy) # am))\<rparr>"
    by (intro Server.equality) (simp_all add: rows [unfolded entry])
  show ?case
    by (simp only: entry insertSection.simps step prod.case outcome.case ih eq)
qed

lemma adapter_open_result:
  "adapter_open a d =
     (Ok, a\<lparr>db := Open\<rparr>,
      d\<lparr>tables := (case tables d ''x_policy'' of
                       None \<Rightarrow> (tables d)(''x_policy'' \<mapsto> [])
                     | Some rows \<Rightarrow> tables d),
        trace := trace d @ [Connect, Exec createTable_sql]\<rparr>)"
  by (simp add: adapter_open_def createTable_def db_Exec_def run_stmt_def log_call_def
      createTable_sql_def split: option.splits)

lemma drop_create_result:
  assumes "db a = Open" and "tables d ''x_policy'' = Some rows"
  shows "dropTable a d =
           (Ok, d\<lparr>tables := (tables d)(''x_policy'' := None),
                   trace := trace d @ [Exec dropTable_sql]\<rparr>)"
    and "createTable a (d\<lparr>tables := (tables d)(''x_policy'' := None),
                          trace := trace d @ [Exec dropTable_sql]\<rparr>) =
           (Ok, d\<lparr>tables := (tables d)(''x_policy'' \<mapsto> []),
                   trace := trace d @ [Exec dropTable_sql, Exec createTable_sql]\<rparr>)"
  using assms
  by (simp_all add: dropTable_def createTable_def db_Exec_def run_stmt_def log_call_def
      createTable_sql_def dropTable_sql_def)

lemma SavePolicy_Ok:
  assumes "\<forall>line\<in>set (section_rows (model ''p'') @ section_rows (model ''g'')). accepts d line"
  shows "SavePolicy a d model =
           (Ok, a\<lparr>db := Open\<rparr>,
            d\<lparr>tables := (tables d)(''x_policy'' \<mapsto>
                           section_rows (model ''p'') @ section_rows (model ''g'')),
              trace := trace d @
                [Connect, Exec createTable_sql, Exec dropTable_sql, Exec createTable_sql] @
                map Insert (section_rows (model ''p'') @ section_rows (model ''g''))\<rparr>)"
proof -
  let ?a = "a\<lparr>db := Open\<rparr>"
  let ?d1 = "d\<lparr>tables := (case tables d ''x_policy'' of
                              None \<Rightarrow> (tables d)(''x_policy'' \<mapsto> [])
                            | Some rows \<Rightarrow> tables d),
               trace := trace d @ [Connect, Exec createTable_sql]\<rparr>"
  let ?d2 = "?d1\<lparr>tables := (tables ?d1)(''x_policy'' := None),
                 trace := trace ?d1 @ [Exec dropTable_sql]\<rparr>"
  let ?d3 = "?d1\<lparr>tables := (tables ?d1)(''x_policy'' \<mapsto> []),
                 trace := trace ?d1 @ [Exec dropTable_sql, Exec createTable_sql]\<rparr>"
  let ?d4 = "?d3\<lparr>tables := (tables ?d3)(''x_policy'' \<mapsto> [] @ section_rows (model ''p'')),
                 trace := trace ?d3 @ map Insert (section_rows (model ''p''))\<rparr>"
  let ?d5 = "?d4\<lparr>tables := (tables ?d4)(''x_policy'' \<mapsto>
                             ([] @ section_rows (model ''p'')) @ section_rows (model ''g'')),
                 trace := trace ?d4 @ map Insert (section_rows (model ''g''))\<rparr>"
  have a: "db ?a = Open"
    by simp
  obtain rows where rows: "tables ?d1 ''x_policy'' = Some rows"
    by (cases "tables d ''x_policy''") simp_all
  have s1: "adapter_open a d = (Ok, ?a, ?d1)"
    by (rule adapter_open_result)
  have s2: "dropTable ?a ?d1 = (Ok, ?d2)"
    using a rows by (rule drop_create_result(1))
  have s3: "createTable ?a ?d2 = (Ok, ?d3)"
    using a rows by (rule drop_create_result(2))
  have s4: "insertSection Open (model ''p'') ?d3 = (Ok, ?d4)"
    using assms by (intro insertSection_Open) simp_all
  have s5: "insertSection Open (model ''g'') ?d4 = (Ok, ?d5)"
    using assms by (intro insertSection_Open) simp_all
  have eq: "?d5 =
     d\<lparr>tables := (tables d)(''x_policy'' \<mapsto>
                           section_rows (model ''p'') @ section_rows (model ''g'')),
              trace := trace d @
                [Connect, Exec createTable_sql, Exec dropTable_sql, Exec createTable_sql] @
                map Insert (section_rows (model ''p'') @ section_rows (model ''g''))\<rparr>"
    by (intro Server.equality) (simp_all split: option.splits)
  show ?thesis
    by (simp only: SavePolicy_def s1 prod.case outcome.case s2 s3 a s4 s5 eq)
qed



section \<open>The connection\<close>

lemma LoadPolicy_connection:
  "db (fst (snd (LoadPolicy a d model))) = Open \<and>
   trace (fst (snd (snd (LoadPolicy a d model)))) =
     trace d @ [Connect, Exec createTable_sql, Query LoadPolicy_sqlstr]"
  by (cases "loadLines (case tables d ''policy'' of None \<Rightarrow> [] | Some rows \<Rightarrow> rows) model")
     (simp add: LoadPolicy_def adapter_open_result db_Query_def run_stmt_def log_call_def
        LoadPolicy_sqlstr_def split: option.splits)

lemma db_Insert_trace:
  "\<exists>rows. trace (snd (db_Insert c line d)) = trace d @ map Insert rows"
proof (cases "c = Open")
  case True
  have "trace (snd (db_Insert Open line d)) = trace d @ map Insert [line]"
    by (simp add: db_Insert_def log_call_def Let_def split: option.splits)
  with True show ?thesis by blast
next
  case False
  then have "trace (snd (db_Insert c line d)) = trace d @ map Insert []"
    by (cases c) (simp_all add: db_Insert_def)
  then show ?thesis by blast
qed

lemma insertRules_trace:
  "\<exists>rows. trace (snd (insertRules c ptype rules d)) = trace d @ map Insert rows"
proof (induction rules arbitrary: d)
  case Nil
  have "trace (snd (insertRules c ptype [] d)) = trace d @ map Insert []" by simp
  then show ?case by blast
next
  case (Cons rule rules)
  obtain r d' where step: "db_Insert c (savePolicyLine ptype rule) d = (r, d')"
    by (cases "db_Insert c (savePolicyLine ptype rule) d")
  obtain rows1 where r1: "trace d' = trace d @ map Insert rows1"
    using db_Insert_trace [of c "savePolicyLine ptype rule" d] step by auto
  obtain rows2 where r2: "trace (snd (insertRules c ptype rules d')) = trace d' @ map Insert rows2"
    using Cons.IH by blast
  have "trace (snd (insertRules c ptype (rule # rules) d)) =
          trace d @ map Insert (if r = Ok then rows1 @ rows2 else rows1)"
    using step r1 r2 by (cases r) simp_all
  then show ?case by blast
qed

lemma insertSection_trace:
  "\<exists>rows. trace (snd (insertSection c am d)) = trace d @ map Insert rows"
proof (induction am arbitrary: d)
  case Nil
  have "trace (snd (insertSection c [] d)) = trace d @ map Insert []" by simp
  then show ?case by blast
next
  case (Cons entry am)
  obtain ptype policy where entry: "entry = (ptype, policy)"
    by (cases entry)
  obtain r d' where step: "insertRules c ptype policy d = (r, d')"
    by (cases "insertRules c ptype policy d")
  obtain rows1 where r1: "trace d' = trace d @ map Insert rows1"
    using insertRules_trace [of c ptype policy d] step by auto
  obtain rows2 where r2: "trace (snd (insertSection c am d')) = trace d' @ map Insert rows2"
    using Cons.IH by blast
  have "trace (snd (insertSection c (entry # am) d)) =
          trace d @ map Insert (if r = Ok then rows1 @ rows2 else rows1)"
    using step r1 r2 by (cases r) (simp_all add: entry)
  then show ?case by blast
qed

lemma SavePolicy_connection:
  "db (fst (snd (SavePolicy a d model))) = Open \<and>
   (\<exists>rows. trace (snd (snd (SavePolicy a d model))) =
      trace d @ [Connect, Exec createTable_sql, Exec dropTable_sql, Exec createTable_sql] @
      map Insert rows)"
proof -
  let ?a = "a\<lparr>db := Open\<rparr>"
  let ?d1 = "d\<lparr>tables := (case tables d ''x_policy'' of
                              None \<Rightarrow> (tables d)(''x_policy'' \<mapsto> [])
                            | Some rows \<Rightarrow> tables d),
               trace := trace d @ [Connect, Exec createTable_sql]\<rparr>"
  let ?d2 = "?d1\<lparr>tables := (tables ?d1)(''x_policy'' := None),
                 trace := trace ?d1 @ [Exec dropTable_sql]\<rparr>"
  let ?d3 = "?d1\<lparr>tables := (tables ?d1)(''x_policy'' \<mapsto> []),
                 trace := trace ?d1 @ [Exec dropTable_sql, Exec createTable_sql]\<rparr>"
  have a: "db ?a = Open"
    by simp
  obtain rows where rows: "tables ?d1 ''x_policy'' = Some rows"
    by (cases "tables d ''x_policy''") simp_all
  have s1: "adapter_open a d = (Ok, ?a, ?d1)"
    by (rule adapter_open_result)
  have s2: "dropTable ?a ?d1 = (Ok, ?d2)"
    using a rows by (rule drop_create_result(1))
  have s3: "createTable ?a ?d2 = (Ok, ?d3)"
    using a rows by (rule drop_create_result(2))
  obtain r4 d4 where s4: "insertSection Open (model ''p'') ?d3 = (r4, d4)"
    by (cases "insertSection Open (model ''p'') ?d3")
  obtain r5 d5 where s5: "insertSection Open (model ''g'') d4 = (r5, d5)"
    by (cases "insertSection Open (model ''g'') d4")
  obtain rows4 where t4: "trace d4 = trace ?d3 @ map Insert rows4"
    using insertSection_trace [of Open "model ''p''" ?d3] s4 by auto
  obtain rows5 where t5: "trace d5 = trace d4 @ map Insert rows5"
    using insertSection_trace [of Open "model ''g''" d4] s5 by auto
  have res: "SavePolicy a d model = (if r4 = Ok then (r5, ?a, d5) else (r4, ?a, d4))"
    by (cases r4; simp only: SavePolicy_def s1 prod.case outcome.case s2 s3 a s4 s5; simp)
  have "trace (snd (snd (SavePolicy a d model))) =
      trace d @ [Connect, Exec createTable_sql, Exec dropTable_sql, Exec createTable_sql] @
      map Insert (if r4 = Ok then rows4 @ rows5 else rows4)"
    using t4 t5 by (simp add: res)
  then have "\<exists>rows. trace (snd (snd (SavePolicy a d model))) =
      trace d @ [Connect, Exec createTable_sql, Exec dropTable_sql, Exec createTable_sql] @
      map Insert rows"
    by blast
  moreover have "db (fst (snd (SavePolicy a d model))) = Open"
    by (simp add: res)
  ultimately show ?thesis by blast
qed

lemma AddPolicy_connection:
  "fst (snd (AddPolicy a d sec ptype rule)) = a \<and>
   trace (snd (snd (AddPolicy a d sec ptype rule))) =
     trace d @ (if db a = Open then [Insert (savePolicyLine ptype rule)] else [])"
  by (cases "db a")
     (simp_all add: AddPolicy_def db_Insert_def log_call_def Let_def split: option.splits)

lemma db_Delete_trace:
  "trace (snd (db_Delete c line d)) = trace d @ (if c = Open then [Delete line] else [])"
  by (cases c) (simp_all add: db_Delete_def log_call_def Let_def split: option.splits)

lemma RemovePolicy_connection:
  "fst (snd (RemovePolicy a d sec ptype rule)) = a \<and>
   trace (snd (snd (RemovePolicy a d sec ptype rule))) =
     trace d @ (if db a = Open then [Delete (savePolicyLine ptype rule)] else [])"
  using db_Delete_trace [of "db a" "savePolicyLine ptype rule" d]
  by (cases "db_Delete (db a) (savePolicyLine ptype rule) d") (simp add: RemovePolicy_def)

lemma RemoveFilteredPolicy_connection:
  "fst (snd (RemoveFilteredPolicy a d sec ptype fieldIndex fieldValues)) = a \<and>
   trace (snd (snd (RemoveFilteredPolicy a d sec ptype fieldIndex fieldValues))) =
     trace d @ (case RemoveFilteredPolicy_line ptype fieldIndex fieldValues of
                  Inl p \<Rightarrow> []
                | Inr line \<Rightarrow> if db a = Open then [Delete line] else [])"
proof (cases "RemoveFilteredPolicy_line ptype fieldIndex fieldValues")
  case (Inl p)
  then show ?thesis by (simp add: RemoveFilteredPolicy_def)
next
  case (Inr line)
  then show ?thesis
    using db_Delete_trace [of "db a" line d]
    by (cases "db_Delete (db a) line d") (simp add: RemoveFilteredPolicy_def)
qed

text \<open>
  Claim C9, at \<open>AddPolicy\<close>. On the new adapter, whose connection is unopened,
  \<open>AddPolicy\<close> leaves the connection unopened and no call reaches the database; on
  an adapter whose connection is open it sends the one insert, with no connect and
  no \<open>CREATE table\<close> before it.
\<close>

theorem AddPolicy_opens_no_connection:
  "db adapter0 = Unopened \<and>
   db (fst (snd (AddPolicy adapter0 server0 ''p'' ''p'' [''alice'', ''data1'', ''read'']))) =
     Unopened \<and>
   trace (snd (snd (AddPolicy adapter0 server0 ''p'' ''p'' [''alice'', ''data1'', ''read'']))) =
     trace server0 \<and>
   trace (snd (snd (AddPolicy adapter1 server1 ''p'' ''p'' [''bob'', ''data2'', ''write'']))) =
     trace server1 @ [Insert (savePolicyLine ''p'' [''bob'', ''data2'', ''write''])]"
  by (simp add: AddPolicy_def db_Insert_def log_call_def adapter0_def adapter1_def
      NewAdapter_def server0_def server1_def CasbinRule_TableName_def Let_def)

text \<open>
  Claim C9, amended. \<open>LoadPolicy\<close> and \<open>SavePolicy\<close> open a fresh connection at
  entry and make sure the table is there (a connect and the \<open>CREATE table IF NOT
  EXISTS\<close> are their first calls), and leave the connection open. \<open>AddPolicy\<close>,
  \<open>RemovePolicy\<close> and \<open>RemoveFilteredPolicy\<close> open no connection: they leave the
  adapter as it is and send one insert or delete at most. No operation closes the
  connection: \<open>Close\<close> is in no list of calls.
\<close>

theorem connection_lifecycle:
  "db (fst (snd (LoadPolicy a d model))) = Open \<and>
   trace (fst (snd (snd (LoadPolicy a d model)))) =
     trace d @ [Connect, Exec createTable_sql, Query LoadPolicy_sqlstr] \<and>
   db (fst (snd (SavePolicy a d model))) = Open \<and>
   (\<exists>rows. trace (snd (snd (SavePolicy a d model))) =
      trace d @ [Connect, Exec createTable_sql, Exec dropTable_sql, Exec createTable_sql] @
      map Insert rows) \<and>
   fst (snd (AddPolicy a d sec ptype rule)) = a \<and>
   trace (snd (snd (AddPolicy a d sec ptype rule))) =
     trace d @ (if db a = Open then [Insert (savePolicyLine ptype rule)] else []) \<and>
   fst (snd (RemovePolicy a d sec ptype rule)) = a \<and>
   trace (snd (snd (RemovePolicy a d sec ptype rule))) =
     trace d @ (if db a = Open then [Delete (savePolicyLine ptype rule)] else []) \<and>
   fst (snd (RemoveFilteredPolicy a d sec ptype fieldIndex fieldValues)) = a \<and>
   trace (snd (snd (RemoveFilteredPolicy a d sec ptype fieldIndex fieldValues))) =
     trace d @ (case RemoveFilteredPolicy_line ptype fieldIndex fieldValues of
                  Inl p \<Rightarrow> []
                | Inr line \<Rightarrow> if db a = Open then [Delete line] else [])"
  using LoadPolicy_connection [of a d model] SavePolicy_connection [of a d model]
    AddPolicy_connection [of a d sec ptype rule] RemovePolicy_connection [of a d sec ptype rule]
    RemoveFilteredPolicy_connection [of a d sec ptype fieldIndex fieldValues]
  by (intro conjI) (erule conjE, assumption)+

section \<open>The table of the query\<close>

text \<open>
  Claim C2. The query of \<open>LoadPolicy\<close> selects from the table \<open>policy\<close>, which is
  not the table \<open>x_policy\<close> that \<open>createTable\<close> creates, \<open>dropTable\<close> drops and the
  rows are inserted into; one run of \<open>LoadPolicy\<close> sends both names, the
  \<open>CREATE table\<close> of \<open>open\<close> and then the query.
\<close>

theorem LoadPolicy_reads_other_table:
  "stmt_table LoadPolicy_sqlstr = ''policy'' \<and>
   stmt_table createTable_sql = ''x_policy'' \<and>
   stmt_table dropTable_sql = ''x_policy'' \<and>
   CasbinRule_TableName = ''x_policy'' \<and>
   stmt_table LoadPolicy_sqlstr \<noteq> stmt_table createTable_sql \<and>
   stmt_table LoadPolicy_sqlstr \<noteq> stmt_table dropTable_sql \<and>
   trace (fst (snd (snd (LoadPolicy a d model)))) =
     trace d @ [Connect, Exec createTable_sql, Query LoadPolicy_sqlstr]"
  using LoadPolicy_connection [of a d model]
  by (simp add: LoadPolicy_sqlstr_def createTable_sql_def dropTable_sql_def
      CasbinRule_TableName_def)

lemma example_saved:
  "SavePolicy adapter0 server0 example_model =
     (Ok, adapter1,
      server0\<lparr>tables := [''x_policy'' \<mapsto>
                 [savePolicyLine ''p'' [''alice'', ''data1'', ''read''],
                  savePolicyLine ''p'' [''bob'', ''data2'', ''write''],
                  savePolicyLine ''g'' [''alice'', ''admin'']]],
              trace := [Connect, Exec createTable_sql, Exec dropTable_sql, Exec createTable_sql,
                 Insert (savePolicyLine ''p'' [''alice'', ''data1'', ''read'']),
                 Insert (savePolicyLine ''p'' [''bob'', ''data2'', ''write'']),
                 Insert (savePolicyLine ''g'' [''alice'', ''admin''])]\<rparr>)"
proof -
  have rows: "section_rows (example_model ''p'') @ section_rows (example_model ''g'') =
     [savePolicyLine ''p'' [''alice'', ''data1'', ''read''],
      savePolicyLine ''p'' [''bob'', ''data2'', ''write''],
      savePolicyLine ''g'' [''alice'', ''admin'']]"
    by (simp add: section_rows_def example_model_def)
  have acc: "\<forall>line\<in>set (section_rows (example_model ''p'') @ section_rows (example_model ''g'')).
       accepts server0 line"
    by (simp add: server0_def)
  have t: "trace server0 = []" "tables server0 = Map.empty"
    by (simp_all add: server0_def)
  show ?thesis
    by (simp add: SavePolicy_Ok [OF acc, of adapter0] rows t adapter1_def)
qed

text \<open>
  Claim C1, at the spec's example. \<open>SavePolicy\<close> of the example model writes its
  three rows into \<open>x_policy\<close>; \<open>LoadPolicy\<close> then queries \<open>policy\<close>, a table the
  database does not have, returns the error of the query and loads nothing: the
  model stays without rules, and its section \<open>"p"\<close> is not the original's.
\<close>

theorem save_then_load_example:
  "fst saved_then_loaded = Err (UndefinedTable ''policy'') \<and>
   snd (snd (snd saved_then_loaded)) = empty_model \<and>
   tables (fst (snd (snd saved_then_loaded))) ''x_policy'' =
     Some [savePolicyLine ''p'' [''alice'', ''data1'', ''read''],
           savePolicyLine ''p'' [''bob'', ''data2'', ''write''],
           savePolicyLine ''g'' [''alice'', ''admin'']] \<and>
   tables (fst (snd (snd saved_then_loaded))) ''policy'' = None \<and>
   empty_model ''p'' = [(''p'', [])] \<and>
   example_model ''p'' =
     [(''p'', [[''alice'', ''data1'', ''read''], [''bob'', ''data2'', ''write'']])]"
proof -
  let ?d = "server0\<lparr>tables := [''x_policy'' \<mapsto>
                 [savePolicyLine ''p'' [''alice'', ''data1'', ''read''],
                  savePolicyLine ''p'' [''bob'', ''data2'', ''write''],
                  savePolicyLine ''g'' [''alice'', ''admin'']]],
              trace := [Connect, Exec createTable_sql, Exec dropTable_sql, Exec createTable_sql,
                 Insert (savePolicyLine ''p'' [''alice'', ''data1'', ''read'']),
                 Insert (savePolicyLine ''p'' [''bob'', ''data2'', ''write'']),
                 Insert (savePolicyLine ''g'' [''alice'', ''admin''])]\<rparr>"
  have run: "saved_then_loaded = LoadPolicy adapter1 ?d empty_model"
    by (simp only: saved_then_loaded_def example_saved prod.case)
  have load: "LoadPolicy adapter1 ?d empty_model =
     (Err (UndefinedTable ''policy''), adapter1,
      ?d\<lparr>trace := trace ?d @ [Connect, Exec createTable_sql, Query LoadPolicy_sqlstr]\<rparr>,
      empty_model)"
    by (simp add: LoadPolicy_def adapter_open_result db_Query_def run_stmt_def log_call_def
        LoadPolicy_sqlstr_def adapter1_def)
  show ?thesis
    by (simp add: run load) (simp add: empty_model_def example_model_def)
qed

text \<open>
  The rows themselves do carry the example model: loaded through \<open>loadPolicyLine\<close>
  into the model without rules, they give the original back.
\<close>

lemma loadLines_saved_rows:
  "loadLines [savePolicyLine ''p'' [''alice'', ''data1'', ''read''],
              savePolicyLine ''p'' [''bob'', ''data2'', ''write''],
              savePolicyLine ''g'' [''alice'', ''admin'']] empty_model =
     (Ok, example_model)"
  by (simp add: loadPolicyLine_def persist_LoadPolicyLine_def loadPolicyLine_text_def
      savePolicyLine_def CasbinRule_zero_def empty_model_def example_model_def set_Policy_def
      Let_def fun_eq_iff TrimSpace_examples)

end
